theory Spec2Isabelle
  imports Main "HOL-Library.Code_Target_Numeral"
begin

section \<open>The experiment runner \<^verbatim>\<open>src/bgn/cmd/runScript.py\<close>\<close>

text \<open>
  The script holds a list \<^verbatim>\<open>args\<close> of parameter tuples and, for each of them in turn,
  builds a command line, runs it with \<^verbatim>\<open>subprocess.run(cmd, capture_output=True, text=True)\<close>
  and prints the captured standard output.

  Everything the script does to the outside world is recorded in a trace of events; the
  external program and the operating system are a parameter \<open>env\<close> of the model.
\<close>

subsection \<open>Data\<close>

text \<open>A parameter tuple is a Python list of integers; Python integers are unbounded.\<close>

type_synonym arg_set = "int list"

text \<open>The module-level list \<^verbatim>\<open>args\<close> (lines 11 to 17).\<close>

definition args :: "arg_set list" where
  "args =
    [[5, 512, 10000000000, 5, 10000, 100000, 76],
     [5, 512, 10000000000, 10, 10000, 100000, 76],
     [5, 512, 10000000000, 15, 10000, 100000, 76],
     [5, 512, 10000000000, 20, 10000, 100000, 76],
     [5, 512, 10000000000, 40, 10000, 100000, 76]]"

text \<open>
  The exceptions that can leave the script: an index beyond the end of a tuple;
  \<^verbatim>\<open>subprocess.run\<close> failing to start the child (the program is absent); and
  \<^verbatim>\<open>subprocess.run\<close> failing to decode what the child wrote, which \<^verbatim>\<open>text=True\<close> asks for.
\<close>

datatype error = IndexError | OSError | UnicodeDecodeError

text \<open>
  A child writes bytes; a Python \<^verbatim>\<open>str\<close> is a sequence of Unicode code points. The
  strings of a command line stay \<open>string\<close>.
\<close>

type_synonym bytes = "char list"

type_synonym unicode = "nat list"

text \<open>
  What a child that was started has done by the time it has terminated: its exit status
  and the bytes it wrote to its standard output and to its standard error.
\<close>

record child =
  exit_code :: int
  out_bytes :: bytes
  err_bytes :: bytes

text \<open>
  The object \<^verbatim>\<open>subprocess.run\<close> returns: the exit status of the child and, because of
  \<^verbatim>\<open>capture_output=True, text=True\<close>, its two output streams as text.
\<close>

record completed_process =
  returncode :: int
  stdout :: unicode
  stderr :: unicode

text \<open>
  The environment of a run. \<open>spawn\<close> says what happens when a command is started:
  \<open>Some c\<close> is a child that was started and has terminated as \<open>c\<close> describes, \<open>None\<close> a
  child that could not be started. \<open>decode\<close> is the strict decoder of the locale's
  encoding, which text mode uses: \<open>None\<close> where the bytes are not valid in that encoding.
\<close>

record environment =
  spawn :: "string list \<Rightarrow> child option"
  decode :: "bytes \<Rightarrow> unicode option"

text \<open>
  What an observer of the run sees, in order: a child being started with a command, that
  child terminating with an exit status, and text written to the script's own standard
  output.
\<close>

datatype event =
    Started "string list"
  | Terminated "string list" int
  | Wrote unicode

subsection \<open>Python's built-ins and library\<close>

text \<open>\<^verbatim>\<open>str\<close> on an integer: its decimal digits, after a minus sign when it is negative.\<close>

definition digit :: "nat \<Rightarrow> char" where
  "digit d = ''0123456789'' ! d"

fun str_nat :: "nat \<Rightarrow> string" where
  "str_nat n = (if n < 10 then [digit n] else str_nat (n div 10) @ [digit (n mod 10)])"

declare str_nat.simps [simp del]

definition str :: "int \<Rightarrow> string" where
  "str i = (if i < 0 then CHR ''-'' # str_nat (nat (- i)) else str_nat (nat i))"

text \<open>
  \<^verbatim>\<open>xs[i]\<close> for a literal index \<open>i \<ge> 0\<close>: the element, or \<^verbatim>\<open>IndexError\<close> past the end.
\<close>

definition getitem :: "'a list \<Rightarrow> nat \<Rightarrow> error + 'a" where
  "getitem xs i = (if i < length xs then Inr (xs ! i) else Inl IndexError)"

text \<open>Sequencing of computations that may raise: the first exception wins.\<close>

fun and_then :: "error + 'a \<Rightarrow> ('a \<Rightarrow> error + 'b) \<Rightarrow> error + 'b" where
  "and_then (Inl e) f = Inl e"
| "and_then (Inr x) f = f x"

text \<open>
  \<^verbatim>\<open>print(s)\<close> for a string \<open>s\<close>: the text is written to standard output, then the line
  end \<^verbatim>\<open>'\n'\<close>, code point 10.
\<close>

definition print :: "unicode \<Rightarrow> event list \<Rightarrow> event list" where
  "print s tr = tr @ [Wrote s, Wrote [10]]"

text \<open>
  \<^verbatim>\<open>Popen._translate_newlines\<close>, applied in text mode to each captured stream:
  \<^verbatim>\<open>data.decode(encoding, errors)\<close>, strict, and then
  \<^verbatim>\<open>.replace("\r\n", "\n").replace("\r", "\n")\<close>. Code point 13 is \<^verbatim>\<open>'\r'\<close>.
\<close>

fun replace_crlf :: "unicode \<Rightarrow> unicode" where
  "replace_crlf (c # d # cs) =
     (if c = 13 \<and> d = 10 then 10 # replace_crlf cs else c # replace_crlf (d # cs))"
| "replace_crlf cs = cs"

definition replace_cr :: "unicode \<Rightarrow> unicode" where
  "replace_cr cs = map (\<lambda>c. if c = 13 then 10 else c) cs"

definition translate_newlines :: "environment \<Rightarrow> bytes \<Rightarrow> error + unicode" where
  "translate_newlines env data =
     (case decode env data of
        None \<Rightarrow> Inl UnicodeDecodeError
      | Some s \<Rightarrow> Inr (replace_cr (replace_crlf s)))"

text \<open>
  \<^verbatim>\<open>subprocess.run(cmd, capture_output=True, text=True)\<close>. The child is started, or the
  call raises at once. The call then blocks until the child has terminated; only after
  that are the two captured streams turned into text, standard output first, and either
  of them can raise. No \<^verbatim>\<open>check=True\<close> is passed, so the exit status raises nothing.
  An exception comes with the trace as it stood when it was raised.
\<close>

definition subprocess_run ::
  "environment \<Rightarrow> string list \<Rightarrow> event list \<Rightarrow>
     (error \<times> event list) + (completed_process \<times> event list)" where
  "subprocess_run env cmd tr =
     (case spawn env cmd of
        None \<Rightarrow> Inl (OSError, tr)
      | Some c \<Rightarrow>
          (let tr' = tr @ [Started cmd, Terminated cmd (exit_code c)]
           in case and_then (translate_newlines env (out_bytes c)) (\<lambda>out.
                   and_then (translate_newlines env (err_bytes c)) (\<lambda>err.
                     Inr \<lparr>returncode = exit_code c, stdout = out, stderr = err\<rparr>)) of
                Inl e \<Rightarrow> Inl (e, tr')
              | Inr result \<Rightarrow> Inr (result, tr')))"

subsection \<open>The script\<close>

text \<open>The command of one tuple (lines 22 to 26); the seven indexings are evaluated in order.\<close>

definition build_cmd :: "arg_set \<Rightarrow> error + string list" where
  "build_cmd arg_set =
     and_then (getitem arg_set 0) (\<lambda>a0.
     and_then (getitem arg_set 1) (\<lambda>a1.
     and_then (getitem arg_set 2) (\<lambda>a2.
     and_then (getitem arg_set 3) (\<lambda>a3.
     and_then (getitem arg_set 4) (\<lambda>a4.
     and_then (getitem arg_set 5) (\<lambda>a5.
     and_then (getitem arg_set 6) (\<lambda>a6.
       Inr [''go'', ''run'', ''test1.go'',
            str a0, str a1, str a2, str a3,
            str a4, str a5, str a6])))))))"

text \<open>
  The loop (lines 20 to 32) over a grid, from the trace so far. An exception ends the
  loop: \<open>Inl\<close> carries it together with what had happened before it was raised.
\<close>

fun sweep :: "environment \<Rightarrow> arg_set list \<Rightarrow> event list \<Rightarrow> (error \<times> event list) + event list" where
  "sweep env [] tr = Inr tr"
| "sweep env (arg_set # rest) tr =
     (case build_cmd arg_set of
        Inl e \<Rightarrow> Inl (e, tr)
      | Inr cmd \<Rightarrow>
          (case subprocess_run env cmd tr of
             Inl (e, tr') \<Rightarrow> Inl (e, tr')
           | Inr (result, tr') \<Rightarrow> sweep env rest (print (stdout result) tr')))"

text \<open>The whole script: the loop over the embedded grid, from an empty trace.\<close>

definition run :: "environment \<Rightarrow> (error \<times> event list) + event list" where
  "run env = sweep env args []"

text \<open>
  The exit status of the interpreter: 0 when the script runs to its end, 1 when an
  exception leaves it.
\<close>

definition exit_status :: "(error \<times> event list) + event list \<Rightarrow> int" where
  "exit_status r = (case r of Inl _ \<Rightarrow> 1 | Inr _ \<Rightarrow> 0)"

subsection \<open>Observations on a run\<close>

definition trace_of :: "(error \<times> event list) + event list \<Rightarrow> event list" where
  "trace_of r = (case r of Inl (e, tr) \<Rightarrow> tr | Inr tr \<Rightarrow> tr)"

text \<open>The commands of the children that were started, in order.\<close>

fun launched :: "event list \<Rightarrow> string list list" where
  "launched [] = []"
| "launched (Started c # es) = c # launched es"
| "launched (Terminated c rc # es) = launched es"
| "launched (Wrote s # es) = launched es"

text \<open>The text on the script's standard output: all that was written, in order.\<close>

fun console :: "event list \<Rightarrow> unicode" where
  "console [] = []"
| "console (Started c # es) = console es"
| "console (Terminated c rc # es) = console es"
| "console (Wrote s # es) = s @ console es"

text \<open>
  No two children are alive at once and nothing is written while a child is alive: the
  first argument is the command of the child that is running, if any.
\<close>

fun sequential :: "string list option \<Rightarrow> event list \<Rightarrow> bool" where
  "sequential running [] = (running = None)"
| "sequential running (Started c # es) = (running = None \<and> sequential (Some c) es)"
| "sequential running (Terminated c rc # es) = (running = Some c \<and> sequential None es)"
| "sequential running (Wrote s # es) = (running = None \<and> sequential running es)"

text \<open>
  What one call of \<^verbatim>\<open>subprocess.run\<close> on a command comes to: the object it returns, or the
  exception it raises.
\<close>

definition outcome :: "environment \<Rightarrow> string list \<Rightarrow> error + completed_process" where
  "outcome env cmd = map_sum fst fst (subprocess_run env cmd [])"

text \<open>
  The object returned for a tuple, when the tuple has the seven fields the script reads,
  its child is started and terminates, and both captured streams decode. A run over a grid
  goes through when that holds for each of its tuples.
\<close>

definition child_of :: "environment \<Rightarrow> arg_set \<Rightarrow> completed_process option" where
  "child_of env arg_set =
     (case build_cmd arg_set of
        Inl e \<Rightarrow> None
      | Inr cmd \<Rightarrow> (case outcome env cmd of Inl e \<Rightarrow> None | Inr result \<Rightarrow> Some result))"

definition all_complete :: "environment \<Rightarrow> arg_set list \<Rightarrow> bool" where
  "all_complete env grid = list_all (\<lambda>arg_set. child_of env arg_set \<noteq> None) grid"

text \<open>
  The command of a tuple that has its seven fields, and the events of one pass through the
  loop body for such a tuple when \<^verbatim>\<open>subprocess.run\<close> returns.
\<close>

definition cmd_of :: "arg_set \<Rightarrow> string list" where
  "cmd_of arg_set = (case build_cmd arg_set of Inl e \<Rightarrow> [] | Inr cmd \<Rightarrow> cmd)"

definition iteration :: "environment \<Rightarrow> arg_set \<Rightarrow> event list" where
  "iteration env arg_set =
     (let cmd = cmd_of arg_set; result = projr (outcome env cmd)
      in [Started cmd, Terminated cmd (returncode result),
          Wrote (stdout result), Wrote [10]])"

subsection \<open>Stand-ins for the environment\<close>

text \<open>
  The strict UTF-8 decoder, Python's default encoding: one to four bytes for a code point,
  shortest form only, no surrogates, nothing above \<open>0x10FFFF\<close>.
\<close>

definition continuation :: "char \<Rightarrow> bool" where
  "continuation b \<longleftrightarrow> (0x80::nat) \<le> of_char b \<and> of_char b \<le> (0xBF::nat)"

definition low_bits :: "char \<Rightarrow> nat" where
  "low_bits b = of_char b - 0x80"

fun utf8_decode :: "bytes \<Rightarrow> unicode option" where
  "utf8_decode [] = Some []"
| "utf8_decode (b # bs) =
     (let n = of_char b :: nat in
      if n < 0x80 then map_option ((#) n) (utf8_decode bs)
      else if 0xC2 \<le> n \<and> n \<le> 0xDF then
        (case bs of
           b1 # rest \<Rightarrow>
             if continuation b1
             then map_option ((#) ((n - 0xC0) * 64 + low_bits b1)) (utf8_decode rest)
             else None
         | _ \<Rightarrow> None)
      else if 0xE0 \<le> n \<and> n \<le> 0xEF then
        (case bs of
           b1 # b2 # rest \<Rightarrow>
             (let cp = (n - 0xE0) * 4096 + low_bits b1 * 64 + low_bits b2 in
              if continuation b1 \<and> continuation b2 \<and> 0x800 \<le> cp
                 \<and> \<not> (0xD800 \<le> cp \<and> cp \<le> 0xDFFF)
              then map_option ((#) cp) (utf8_decode rest)
              else None)
         | _ \<Rightarrow> None)
      else if 0xF0 \<le> n \<and> n \<le> 0xF4 then
        (case bs of
           b1 # b2 # b3 # rest \<Rightarrow>
             (let cp = (n - 0xF0) * 262144 + low_bits b1 * 4096 + low_bits b2 * 64 + low_bits b3 in
              if continuation b1 \<and> continuation b2 \<and> continuation b3
                 \<and> 0x10000 \<le> cp \<and> cp \<le> 0x10FFFF
              then map_option ((#) cp) (utf8_decode rest)
              else None)
         | _ \<Rightarrow> None)
      else None)"

text \<open>
  A program that always exits with the same status after writing the same bytes to its
  two streams, whatever its arguments; a program that writes its arguments back and
  succeeds; and a program that is not there.
\<close>

definition fixed_program :: "int \<Rightarrow> bytes \<Rightarrow> bytes \<Rightarrow> environment" where
  "fixed_program rc out err =
     \<lparr>spawn = (\<lambda>cmd. Some \<lparr>exit_code = rc, out_bytes = out, err_bytes = err\<rparr>),
      decode = utf8_decode\<rparr>"

definition echo_text :: "string list \<Rightarrow> bytes" where
  "echo_text cmd = concat (map (\<lambda>a. a @ '' '') (drop 3 cmd))"

definition echo_stub :: environment where
  "echo_stub =
     \<lparr>spawn = (\<lambda>cmd. Some \<lparr>exit_code = 0, out_bytes = echo_text cmd, err_bytes = []\<rparr>),
      decode = utf8_decode\<rparr>"

definition absent_program :: environment where
  "absent_program = \<lparr>spawn = (\<lambda>cmd. None), decode = utf8_decode\<rparr>"

section \<open>Properties\<close>

subsection \<open>The command line\<close>

lemma str_examples:
  "str 5 = ''5''" "str 512 = ''512''" "str 10000000000 = ''10000000000''"
  "str 0 = ''0''" "str (- 120) = ''-120''"
  by (simp_all add: str_def str_nat.simps digit_def)

lemma length_seven:
  "length xs = 7 \<Longrightarrow> \<exists>a0 a1 a2 a3 a4 a5 a6. xs = [a0, a1, a2, a3, a4, a5, a6]"
  by (auto simp: length_Suc_conv eval_nat_numeral)

lemma build_cmd_append:
  "build_cmd ([a0, a1, a2, a3, a4, a5, a6] @ rest) =
     Inr [''go'', ''run'', ''test1.go'', str a0, str a1, str a2, str a3, str a4, str a5, str a6]"
  by (simp add: build_cmd_def getitem_def)

text \<open>Fields beyond the seventh are never read.\<close>

lemma build_cmd_long:
  assumes "7 \<le> length arg_set"
  shows "build_cmd arg_set = Inr (''go'' # ''run'' # ''test1.go'' # map str (take 7 arg_set))"
proof -
  have "length (take 7 arg_set) = 7" using assms by simp
  then obtain a0 a1 a2 a3 a4 a5 a6 where t: "take 7 arg_set = [a0, a1, a2, a3, a4, a5, a6]"
    using length_seven by blast
  have "arg_set = [a0, a1, a2, a3, a4, a5, a6] @ drop 7 arg_set"
    using append_take_drop_id [of 7 arg_set] t by simp
  then have "build_cmd arg_set = build_cmd ([a0, a1, a2, a3, a4, a5, a6] @ drop 7 arg_set)"
    by simp
  then show ?thesis by (simp only: build_cmd_append t) simp
qed

lemma build_cmd_seven:
  assumes "length arg_set = 7"
  shows "build_cmd arg_set = Inr (''go'' # ''run'' # ''test1.go'' # map str arg_set)"
  using build_cmd_long [of arg_set] assms by simp

text \<open>A tuple with fewer than seven fields raises before anything is run.\<close>

lemma and_then_IndexError:
  "(\<And>x. f x = Inl IndexError) \<Longrightarrow> and_then (getitem xs i) f = Inl IndexError"
  by (simp add: getitem_def)

lemma build_cmd_short:
  assumes "length arg_set < 7"
  shows "build_cmd arg_set = Inl IndexError"
proof -
  have last: "\<And>f. and_then (getitem arg_set 6) f = Inl IndexError"
    using assms by (simp add: getitem_def)
  show ?thesis
    unfolding build_cmd_def
    by (rule and_then_IndexError, rule and_then_IndexError, rule and_then_IndexError,
        rule and_then_IndexError, rule and_then_IndexError, rule and_then_IndexError,
        rule last)
qed

lemma build_cmd_cmd_of: "build_cmd t = Inr cmd \<Longrightarrow> cmd_of t = cmd"
  by (simp add: cmd_of_def)

lemma args_seven: "arg_set \<in> set args \<Longrightarrow> length arg_set = 7"
  by (auto simp: args_def)

lemma first_command:
  "cmd_of (args ! 0) =
     [''go'', ''run'', ''test1.go'',
      ''5'', ''512'', ''10000000000'', ''5'', ''10000'', ''100000'', ''76'']"
proof -
  have "args ! 0 = [5, 512, 10000000000, 5, 10000, 100000, 76]"
    by (simp add: args_def)
  then show ?thesis
    by (simp add: cmd_of_def build_cmd_seven str_def str_nat.simps digit_def)
qed

subsection \<open>One call of \<^verbatim>\<open>subprocess.run\<close>\<close>

text \<open>
  The call written out by cases: the child is not started; its standard output does not
  decode; its standard error does not decode; or the call returns.
\<close>

lemma subprocess_run_cases:
  "subprocess_run env cmd tr =
     (case spawn env cmd of
        None \<Rightarrow> Inl (OSError, tr)
      | Some c \<Rightarrow>
          (case decode env (out_bytes c) of
             None \<Rightarrow> Inl (UnicodeDecodeError, tr @ [Started cmd, Terminated cmd (exit_code c)])
           | Some out \<Rightarrow>
               (case decode env (err_bytes c) of
                  None \<Rightarrow> Inl (UnicodeDecodeError, tr @ [Started cmd, Terminated cmd (exit_code c)])
                | Some err \<Rightarrow>
                    Inr (\<lparr>returncode = exit_code c,
                          stdout = replace_cr (replace_crlf out),
                          stderr = replace_cr (replace_crlf err)\<rparr>,
                         tr @ [Started cmd, Terminated cmd (exit_code c)]))))"
  by (simp add: subprocess_run_def translate_newlines_def Let_def split: option.splits)

lemma outcome_cases:
  "outcome env cmd =
     (case spawn env cmd of
        None \<Rightarrow> Inl OSError
      | Some c \<Rightarrow>
          (case decode env (out_bytes c) of
             None \<Rightarrow> Inl UnicodeDecodeError
           | Some out \<Rightarrow>
               (case decode env (err_bytes c) of
                  None \<Rightarrow> Inl UnicodeDecodeError
                | Some err \<Rightarrow>
                    Inr \<lparr>returncode = exit_code c,
                         stdout = replace_cr (replace_crlf out),
                         stderr = replace_cr (replace_crlf err)\<rparr>)))"
  by (simp add: outcome_def subprocess_run_cases split: option.splits)

lemma outcome_returned:
  "outcome env cmd = Inr r \<Longrightarrow>
     subprocess_run env cmd tr = Inr (r, tr @ [Started cmd, Terminated cmd (returncode r)])"
  by (auto simp: outcome_cases subprocess_run_cases split: option.splits)

lemma outcome_not_started:
  "outcome env cmd = Inl OSError \<Longrightarrow> subprocess_run env cmd tr = Inl (OSError, tr)"
  by (auto simp: outcome_cases subprocess_run_cases split: option.splits)

lemma outcome_not_decoded:
  "outcome env cmd = Inl UnicodeDecodeError \<Longrightarrow>
     \<exists>rc. subprocess_run env cmd tr =
            Inl (UnicodeDecodeError, tr @ [Started cmd, Terminated cmd rc])"
  by (auto simp: outcome_cases subprocess_run_cases split: option.splits)

lemma outcome_no_IndexError: "outcome env cmd \<noteq> Inl IndexError"
  by (auto simp: outcome_cases split: option.splits)

lemma outcome_returnedD:
  "outcome env cmd = Inr r \<Longrightarrow>
     \<exists>c out err. spawn env cmd = Some c \<and> decode env (out_bytes c) = Some out \<and>
       decode env (err_bytes c) = Some err \<and> returncode r = exit_code c \<and>
       stdout r = replace_cr (replace_crlf out) \<and> stderr r = replace_cr (replace_crlf err)"
  by (auto simp: outcome_cases split: option.splits)

subsection \<open>The loop when every call returns\<close>

lemma child_of_SomeD:
  "child_of env t = Some r \<Longrightarrow> build_cmd t = Inr (cmd_of t) \<and> outcome env (cmd_of t) = Inr r"
  by (auto simp: child_of_def cmd_of_def split: sum.splits)

lemma sweep_step:
  assumes "child_of env t \<noteq> None"
  shows "sweep env (t # rest) tr = sweep env rest (tr @ iteration env t)"
proof -
  from assms obtain r where "child_of env t = Some r" by auto
  then have b: "build_cmd t = Inr (cmd_of t)" and o: "outcome env (cmd_of t) = Inr r"
    using child_of_SomeD by blast+
  show ?thesis
    by (simp add: b outcome_returned [OF o] o print_def iteration_def Let_def)
qed

lemma sweep_complete:
  "all_complete env grid \<Longrightarrow> sweep env grid tr = Inr (tr @ concat (map (iteration env) grid))"
proof (induction grid arbitrary: tr)
  case Nil
  show ?case by simp
next
  case (Cons t rest)
  from Cons.prems have t: "child_of env t \<noteq> None" and rest: "all_complete env rest"
    by (simp_all add: all_complete_def)
  show ?case by (simp only: sweep_step [OF t] Cons.IH [OF rest]) simp
qed

lemma all_complete_nth:
  assumes "all_complete env grid" and "i < length grid"
  shows "\<exists>r. build_cmd (grid ! i) = Inr (cmd_of (grid ! i)) \<and>
              outcome env (cmd_of (grid ! i)) = Inr r"
proof -
  from assms have "child_of env (grid ! i) \<noteq> None"
    by (simp add: all_complete_def list_all_length)
  then show ?thesis using child_of_SomeD by fastforce
qed

lemma all_completeI:
  assumes "\<And>t. t \<in> set grid \<Longrightarrow> 7 \<le> length t" and "\<And>cmd. \<exists>r. outcome env cmd = Inr r"
  shows "all_complete env grid"
proof -
  have "child_of env t \<noteq> None" if "t \<in> set grid" for t
  proof -
    from assms(2) obtain r where "outcome env (''go'' # ''run'' # ''test1.go'' # map str (take 7 t)) = Inr r"
      by blast
    then show ?thesis using assms(1) [OF that] by (simp add: child_of_def build_cmd_long)
  qed
  then show ?thesis by (simp add: all_complete_def list_all_iff)
qed

subsection \<open>The stand-ins\<close>

text \<open>On bytes below 128 the decoder is the identity.\<close>

lemma utf8_ascii:
  "(\<And>b. b \<in> set bs \<Longrightarrow> of_char b < (128::nat)) \<Longrightarrow> utf8_decode bs = Some (map of_char bs)"
  by (induction bs) simp_all

lemma fixed_program_outcome:
  assumes "utf8_decode out = Some out_text" and "utf8_decode err = Some err_text"
  shows "outcome (fixed_program rc out err) cmd =
           Inr \<lparr>returncode = rc, stdout = replace_cr (replace_crlf out_text),
                stderr = replace_cr (replace_crlf err_text)\<rparr>"
  using assms by (simp add: outcome_cases fixed_program_def)

lemma fixed_program_complete:
  assumes "utf8_decode out = Some out_text" and "utf8_decode err = Some err_text"
  shows "all_complete (fixed_program rc out err) args"
  by (rule all_completeI) (simp_all add: args_seven fixed_program_outcome [OF assms])

lemma echo_stub_complete: "all_complete echo_stub args"
  by (simp add: all_complete_def args_def child_of_def build_cmd_seven outcome_cases
      echo_stub_def echo_text_def str_def str_nat.simps digit_def)

subsection \<open>Observations and the events of the loop body\<close>

lemma launched_append: "launched (xs @ ys) = launched xs @ launched ys"
  by (induction xs rule: launched.induct) simp_all

lemma console_append: "console (xs @ ys) = console xs @ console ys"
  by (induction xs rule: console.induct) simp_all

lemma sequential_append:
  "sequential running xs \<Longrightarrow> sequential None ys \<Longrightarrow> sequential running (xs @ ys)"
  by (induction running xs rule: sequential.induct) simp_all

lemma launched_iteration: "launched (iteration env t) = [cmd_of t]"
  by (simp add: iteration_def Let_def)

lemma console_iteration:
  "console (iteration env t) = stdout (projr (outcome env (cmd_of t))) @ [10]"
  by (simp add: iteration_def Let_def)

lemma launched_iterations: "launched (concat (map (iteration env) grid)) = map cmd_of grid"
  by (induction grid) (simp_all add: launched_append launched_iteration)

lemma console_iterations:
  "console (concat (map (iteration env) grid)) =
     concat (map (\<lambda>t. stdout (projr (outcome env (cmd_of t))) @ [10]) grid)"
  by (induction grid) (simp_all add: console_append console_iteration)

lemma sequential_iteration: "sequential None (iteration env t @ es) = sequential None es"
  by (simp add: iteration_def Let_def)

lemma sequential_iterations: "sequential None (concat (map (iteration env) grid))"
  by (induction grid) (simp_all add: sequential_iteration)

lemma length_iteration: "length (iteration env t) = 4"
  by (simp add: iteration_def Let_def)

lemma length_iterations: "length (concat (map (iteration env) grid)) = 4 * length grid"
  by (induction grid) (simp_all add: length_iteration)

subsection \<open>Positions in the trace\<close>

lemma nth_iterations:
  "i < length grid \<Longrightarrow> k < 4 \<Longrightarrow>
     concat (map (iteration env) grid) ! (4 * i + k) = iteration env (grid ! i) ! k"
proof (induction grid arbitrary: i)
  case Nil
  then show ?case by simp
next
  case (Cons t rest)
  show ?case
  proof (cases i)
    case 0
    then show ?thesis using Cons.prems by (simp add: nth_append length_iteration)
  next
    case (Suc j)
    then have "j < length rest" using Cons.prems by simp
    from Cons.IH [OF this Cons.prems(2)] show ?thesis using Suc
      by (simp add: nth_append length_iteration)
  qed
qed

lemma take_iterations:
  "i \<le> length grid \<Longrightarrow>
     take (4 * i) (concat (map (iteration env) grid)) = concat (map (iteration env) (take i grid))"
proof (induction grid arbitrary: i)
  case Nil
  then show ?case by simp
next
  case (Cons t rest)
  show ?case
  proof (cases i)
    case 0
    then show ?thesis by simp
  next
    case (Suc j)
    then have "j \<le> length rest" using Cons.prems by simp
    from Cons.IH [OF this] show ?thesis using Suc by (simp add: length_iteration)
  qed
qed

lemma iterations_events:
  fixes env :: environment
  assumes "i < length grid"
  defines "tr \<equiv> concat (map (iteration env) grid)"
  shows "tr ! (4 * i) = Started (cmd_of (grid ! i))"
    and "tr ! (4 * i + 1) =
           Terminated (cmd_of (grid ! i)) (returncode (projr (outcome env (cmd_of (grid ! i)))))"
    and "tr ! (4 * i + 2) = Wrote (stdout (projr (outcome env (cmd_of (grid ! i)))))"
    and "tr ! (4 * i + 3) = Wrote [10]"
proof -
  have "tr ! (4 * i + 0) = iteration env (grid ! i) ! 0"
    unfolding tr_def by (rule nth_iterations [OF assms(1)]) simp
  then show "tr ! (4 * i) = Started (cmd_of (grid ! i))"
    by (simp add: iteration_def Let_def)
  have "tr ! (4 * i + 1) = iteration env (grid ! i) ! 1"
    unfolding tr_def by (rule nth_iterations [OF assms(1)]) simp
  then show "tr ! (4 * i + 1) =
      Terminated (cmd_of (grid ! i)) (returncode (projr (outcome env (cmd_of (grid ! i)))))"
    by (simp add: iteration_def Let_def)
  have "tr ! (4 * i + 2) = iteration env (grid ! i) ! 2"
    unfolding tr_def by (rule nth_iterations [OF assms(1)]) simp
  then show "tr ! (4 * i + 2) = Wrote (stdout (projr (outcome env (cmd_of (grid ! i)))))"
    by (simp add: iteration_def Let_def)
  have "tr ! (4 * i + 3) = iteration env (grid ! i) ! 3"
    unfolding tr_def by (rule nth_iterations [OF assms(1)]) simp
  then show "tr ! (4 * i + 3) = Wrote [10]"
    by (simp add: iteration_def Let_def)
qed

subsection \<open>Console text\<close>

lemma length_with_line_ends:
  "length (concat (map (\<lambda>t. g t @ [c]) grid)) = length (concat (map g grid)) + length grid"
  by (induction grid) simp_all

subsection \<open>The loop when something is raised\<close>

text \<open>
  A tuple that is too short, a child that cannot be started, and a child whose output does
  not decode each end the loop there; in the last case the child has run.
\<close>

lemma sweep_short_tuple:
  "length t < 7 \<Longrightarrow> sweep env (t # rest) tr = Inl (IndexError, tr)"
  by (simp add: build_cmd_short)

lemma sweep_not_started:
  "build_cmd t = Inr cmd \<Longrightarrow> spawn env cmd = None \<Longrightarrow>
     sweep env (t # rest) tr = Inl (OSError, tr)"
  by (simp add: subprocess_run_cases)

lemma sweep_not_decoded:
  assumes "build_cmd t = Inr cmd" and "spawn env cmd = Some c"
    and "decode env (out_bytes c) = None \<or> decode env (err_bytes c) = None"
  shows "sweep env (t # rest) tr =
           Inl (UnicodeDecodeError, tr @ [Started cmd, Terminated cmd (exit_code c)])"
  using assms by (auto simp: subprocess_run_cases split: option.splits)

subsection \<open>Every run, complete or not\<close>

text \<open>
  Whatever happens, the children started are those of the first tuples of the grid, one
  each and in order, and no two of them are ever alive at once.
\<close>

lemma sweep_launches_prefix:
  "\<exists>n\<le>length grid.
     launched (trace_of (sweep env grid tr)) = launched tr @ map cmd_of (take n grid)"
proof (induction grid arbitrary: tr)
  case Nil
  show ?case by (simp add: trace_of_def)
next
  case (Cons t rest)
  show ?case
  proof (cases "build_cmd t")
    case (Inl e)
    then have "launched (trace_of (sweep env (t # rest) tr)) =
        launched tr @ map cmd_of (take 0 (t # rest))"
      by (simp add: trace_of_def)
    then show ?thesis by blast
  next
    case (Inr cmd)
    then have c: "cmd_of t = cmd" by (rule build_cmd_cmd_of)
    show ?thesis
    proof (cases "outcome env cmd")
      case (Inl e)
      show ?thesis
      proof (cases e)
        case IndexError
        then show ?thesis using Inl outcome_no_IndexError by blast
      next
        case OSError
        then have "launched (trace_of (sweep env (t # rest) tr)) =
            launched tr @ map cmd_of (take 0 (t # rest))"
          using Inl Inr by (simp add: outcome_not_started trace_of_def)
        then show ?thesis by blast
      next
        case UnicodeDecodeError
        then obtain rc where "subprocess_run env cmd tr =
            Inl (UnicodeDecodeError, tr @ [Started cmd, Terminated cmd rc])"
          using Inl outcome_not_decoded by blast
        then have "launched (trace_of (sweep env (t # rest) tr)) =
            launched tr @ map cmd_of (take 1 (t # rest))"
          using Inr c by (simp add: trace_of_def launched_append)
        moreover have "(1::nat) \<le> length (t # rest)" by simp
        ultimately show ?thesis by blast
      qed
    next
      case (Inr r)
      let ?tr = "tr @ [Started cmd, Terminated cmd (returncode r), Wrote (stdout r), Wrote [10]]"
      have s: "sweep env (t # rest) tr = sweep env rest ?tr"
        using \<open>build_cmd t = Inr cmd\<close> by (simp add: outcome_returned [OF Inr] print_def)
      from Cons.IH [of ?tr] obtain n where n: "n \<le> length rest"
        and l: "launched (trace_of (sweep env rest ?tr)) = launched ?tr @ map cmd_of (take n rest)"
        by blast
      have "launched (trace_of (sweep env (t # rest) tr)) =
          launched tr @ map cmd_of (take (Suc n) (t # rest))"
        by (simp only: s l) (simp add: launched_append c)
      moreover have "Suc n \<le> length (t # rest)" using n by simp
      ultimately show ?thesis by blast
    qed
  qed
qed

lemma sweep_sequential:
  "sequential None tr \<Longrightarrow> sequential None (trace_of (sweep env grid tr))"
proof (induction grid arbitrary: tr)
  case Nil
  then show ?case by (simp add: trace_of_def)
next
  case (Cons t rest)
  show ?case
  proof (cases "build_cmd t")
    case (Inl e)
    then show ?thesis using Cons.prems by (simp add: trace_of_def)
  next
    case (Inr cmd)
    have ev: "sequential None (tr @ [Started cmd, Terminated cmd rc])" for rc
      using Cons.prems by (rule sequential_append) simp
    show ?thesis
    proof (cases "outcome env cmd")
      case (Inl e)
      show ?thesis
      proof (cases e)
        case IndexError
        then show ?thesis using Inl outcome_no_IndexError by blast
      next
        case OSError
        then show ?thesis using Inl \<open>build_cmd t = Inr cmd\<close> Cons.prems
          by (simp add: outcome_not_started trace_of_def)
      next
        case UnicodeDecodeError
        then obtain rc where "subprocess_run env cmd tr =
            Inl (UnicodeDecodeError, tr @ [Started cmd, Terminated cmd rc])"
          using Inl outcome_not_decoded by blast
        then show ?thesis using \<open>build_cmd t = Inr cmd\<close> ev [of rc]
          by (simp add: trace_of_def)
      qed
    next
      case (Inr r)
      let ?tr = "tr @ [Started cmd, Terminated cmd (returncode r), Wrote (stdout r), Wrote [10]]"
      have s: "sweep env (t # rest) tr = sweep env rest ?tr"
        using \<open>build_cmd t = Inr cmd\<close> by (simp add: outcome_returned [OF Inr] print_def)
      have "sequential None ?tr"
        using Cons.prems by (rule sequential_append) simp
      from Cons.IH [OF this] show ?thesis by (simp only: s)
    qed
  qed
qed

subsection \<open>Two runs side by side\<close>

lemma sweep_agree:
  assumes "\<And>cmd. map_sum id stdout (outcome env1 cmd) = map_sum id stdout (outcome env2 cmd)"
    and "console tr1 = console tr2" and "launched tr1 = launched tr2"
  shows "console (trace_of (sweep env1 grid tr1)) = console (trace_of (sweep env2 grid tr2)) \<and>
         launched (trace_of (sweep env1 grid tr1)) = launched (trace_of (sweep env2 grid tr2)) \<and>
         exit_status (sweep env1 grid tr1) = exit_status (sweep env2 grid tr2)"
  using assms(2,3)
proof (induction grid arbitrary: tr1 tr2)
  case Nil
  then show ?case by (simp add: trace_of_def exit_status_def)
next
  case (Cons t rest)
  show ?case
  proof (cases "build_cmd t")
    case (Inl e)
    then show ?thesis using Cons.prems by (simp add: trace_of_def exit_status_def)
  next
    case b: (Inr cmd)
    show ?thesis
    proof (cases "outcome env1 cmd")
      case (Inl e)
      then have o2: "outcome env2 cmd = Inl e"
        using assms(1) [of cmd] by (cases "outcome env2 cmd") simp_all
      show ?thesis
      proof (cases e)
        case IndexError
        then show ?thesis using Inl outcome_no_IndexError by blast
      next
        case OSError
        then show ?thesis using Inl o2 b Cons.prems
          by (simp add: outcome_not_started trace_of_def exit_status_def)
      next
        case UnicodeDecodeError
        obtain rc1 where r1: "subprocess_run env1 cmd tr1 =
            Inl (UnicodeDecodeError, tr1 @ [Started cmd, Terminated cmd rc1])"
          using Inl UnicodeDecodeError outcome_not_decoded by blast
        obtain rc2 where r2: "subprocess_run env2 cmd tr2 =
            Inl (UnicodeDecodeError, tr2 @ [Started cmd, Terminated cmd rc2])"
          using o2 UnicodeDecodeError outcome_not_decoded by blast
        show ?thesis using b Cons.prems
          by (simp add: r1 r2 trace_of_def exit_status_def console_append launched_append)
      qed
    next
      case (Inr r1)
      then obtain r2 where o2: "outcome env2 cmd = Inr r2" and out: "stdout r2 = stdout r1"
        using assms(1) [of cmd] by (cases "outcome env2 cmd") auto
      let ?tr1 = "tr1 @ [Started cmd, Terminated cmd (returncode r1), Wrote (stdout r1), Wrote [10]]"
      let ?tr2 = "tr2 @ [Started cmd, Terminated cmd (returncode r2), Wrote (stdout r1), Wrote [10]]"
      have c: "console ?tr1 = console ?tr2" and l: "launched ?tr1 = launched ?tr2"
        using Cons.prems by (simp_all add: console_append launched_append)
      have s1: "sweep env1 (t # rest) tr1 = sweep env1 rest ?tr1"
        using b by (simp add: outcome_returned [OF Inr] print_def)
      have s2: "sweep env2 (t # rest) tr2 = sweep env2 rest ?tr2"
        using b out by (simp add: outcome_returned [OF o2] print_def)
      show ?thesis unfolding s1 s2 by (rule Cons.IH [OF c l])
    qed
  qed
qed

subsection \<open>Runs against the stand-ins\<close>

lemma absent_program_run: "run absent_program = Inl (OSError, [])"
proof -
  have "args = args ! 0 # tl args" by (simp add: args_def)
  moreover have "build_cmd (args ! 0) = Inr (cmd_of (args ! 0))"
    by (simp add: args_def cmd_of_def build_cmd_seven)
  moreover have "spawn absent_program (cmd_of (args ! 0)) = None"
    by (simp add: absent_program_def)
  ultimately show ?thesis
    unfolding run_def using sweep_not_started by metis
qed

lemma fixed_program_not_decoded:
  assumes "utf8_decode out = None \<or> utf8_decode err = None"
  shows "run (fixed_program rc out err) =
           Inl (UnicodeDecodeError,
                [Started (cmd_of (args ! 0)), Terminated (cmd_of (args ! 0)) rc])"
proof -
  let ?c = "\<lparr>exit_code = rc, out_bytes = out, err_bytes = err\<rparr>"
  have a: "args = args ! 0 # tl args" by (simp add: args_def)
  have b: "build_cmd (args ! 0) = Inr (cmd_of (args ! 0))"
    by (simp add: args_def cmd_of_def build_cmd_seven)
  have s: "spawn (fixed_program rc out err) (cmd_of (args ! 0)) = Some ?c"
    by (simp add: fixed_program_def)
  have d: "decode (fixed_program rc out err) (out_bytes ?c) = None \<or>
           decode (fixed_program rc out err) (err_bytes ?c) = None"
    using assms by (simp add: fixed_program_def)
  have "sweep (fixed_program rc out err) (args ! 0 # tl args) [] =
      Inl (UnicodeDecodeError,
           [] @ [Started (cmd_of (args ! 0)), Terminated (cmd_of (args ! 0)) (exit_code ?c)])"
    by (rule sweep_not_decoded [OF b s d])
  then show ?thesis unfolding run_def using a by simp
qed

lemma fixed_program_run:
  assumes "utf8_decode out = Some out_text" and "utf8_decode err = Some err_text"
  shows "run (fixed_program rc out err) =
           Inr (concat (map (iteration (fixed_program rc out err)) args))"
  unfolding run_def by (simp add: sweep_complete [OF fixed_program_complete [OF assms]])

section \<open>The claims\<close>

text \<open>
  C1. For every tuple of the embedded grid, the command built for it is \<^verbatim>\<open>go run test1.go\<close>
  followed by exactly seven further arguments, and these are the \<^verbatim>\<open>str\<close> of the seven
  fields of the tuple, in the order of the tuple.
\<close>

theorem command_of_embedded_tuple:
  assumes "arg_set \<in> set args"
  shows "\<exists>trailing.
           build_cmd arg_set = Inr ([''go'', ''run'', ''test1.go''] @ trailing) \<and>
           length trailing = 7 \<and> trailing = map str arg_set"
  using assms by (simp add: build_cmd_seven args_seven)

theorem command_of_embedded_tuple_witness:
  "[5, 512, 10000000000, 5, 10000, 100000, 76] \<in> set args \<and>
   build_cmd [5, 512, 10000000000, 5, 10000, 100000, 76] =
     Inr [''go'', ''run'', ''test1.go'',
          ''5'', ''512'', ''10000000000'', ''5'', ''10000'', ''100000'', ''76'']"
proof -
  have m: "[5, 512, 10000000000, 5, 10000, 100000, 76] \<in> set args"
    by (simp add: args_def)
  have s: "map str [5, 512, 10000000000, 5, 10000, 100000, 76] =
             [''5'', ''512'', ''10000000000'', ''5'', ''10000'', ''100000'', ''76'']"
    by (simp add: str_def str_nat.simps digit_def)
  from command_of_embedded_tuple [OF m] s show ?thesis using m by simp
qed

text \<open>
  C2, as written, fails: what is printed is not what the child wrote. A child that writes
  the four bytes \<^verbatim>\<open>a\r\nb\<close> and exits with status 0 has the three code points \<^verbatim>\<open>a\nb\<close>
  printed for it, because text mode rewrites line ends.
\<close>

theorem printed_text_is_not_what_the_child_wrote:
  "map_option out_bytes
     (spawn (fixed_program 0 [CHR ''a'', CHR 0x0D, CHR 0x0A, CHR ''b''] []) (cmd_of (args ! 0))) =
     Some [CHR ''a'', CHR 0x0D, CHR 0x0A, CHR ''b''] \<and>
   map of_char [CHR ''a'', CHR 0x0D, CHR 0x0A, CHR ''b''] = [97, 13, 10, 98 :: nat] \<and>
   exit_status (run (fixed_program 0 [CHR ''a'', CHR 0x0D, CHR 0x0A, CHR ''b''] [])) = 0 \<and>
   trace_of (run (fixed_program 0 [CHR ''a'', CHR 0x0D, CHR 0x0A, CHR ''b''] [])) ! 2 =
     Wrote [97, 10, 98]"
proof -
  let ?env = "fixed_program 0 [CHR ''a'', CHR 0x0D, CHR 0x0A, CHR ''b''] []"
  have d: "utf8_decode [CHR ''a'', CHR 0x0D, CHR 0x0A, CHR ''b''] = Some [97, 13, 10, 98]"
    "utf8_decode [] = Some []"
    by simp_all
  have r: "run ?env = Inr (concat (map (iteration ?env) args))"
    by (rule fixed_program_run [OF d])
  have pos: "0 < length args" by (simp add: args_def)
  have p: "4 * 0 + 2 = (2::nat)" by simp
  have "concat (map (iteration ?env) args) ! 2 =
      Wrote (stdout (projr (outcome ?env (cmd_of (args ! 0)))))"
    by (rule iterations_events(3) [OF pos, unfolded p])
  also have "\<dots> = Wrote [97, 10, 98]"
    by (simp add: fixed_program_outcome [OF d] replace_cr_def)
  finally have w: "concat (map (iteration ?env) args) ! 2 = Wrote [97, 10, 98]" .
  have sp: "map_option out_bytes (spawn ?env (cmd_of (args ! 0))) =
      Some [CHR ''a'', CHR 0x0D, CHR 0x0A, CHR ''b'']"
    by (simp add: fixed_program_def)
  show ?thesis
    by (simp add: r w sp trace_of_def exit_status_def)
qed

text \<open>
  C2, amended. For every tuple of a grid whose calls of \<^verbatim>\<open>subprocess.run\<close> all return, the
  trace holds, right after the event of that tuple's child terminating, the writing of the
  child's captured standard output: the bytes the child wrote, decoded, with every
  \<^verbatim>\<open>\r\n\<close> and then every \<^verbatim>\<open>\r\<close> left replaced by \<^verbatim>\<open>\n\<close>. The block of tuple \<open>i\<close> sits
  at the positions \<open>4 i\<close> to \<open>4 i + 3\<close>, so the texts come in the order of the grid.
\<close>

theorem captured_output_follows_termination:
  assumes "all_complete env grid"
  shows "\<exists>tr. sweep env grid [] = Inr tr \<and>
           (\<forall>i<length grid. \<exists>cmd c out.
              build_cmd (grid ! i) = Inr cmd \<and> spawn env cmd = Some c \<and>
              decode env (out_bytes c) = Some out \<and>
              tr ! (4 * i + 1) = Terminated cmd (exit_code c) \<and>
              tr ! (4 * i + 2) = Wrote (replace_cr (replace_crlf out)))"
proof -
  let ?tr = "concat (map (iteration env) grid)"
  have run: "sweep env grid [] = Inr ?tr"
    by (simp add: sweep_complete [OF assms])
  have "\<exists>cmd c out.
          build_cmd (grid ! i) = Inr cmd \<and> spawn env cmd = Some c \<and>
          decode env (out_bytes c) = Some out \<and>
          ?tr ! (4 * i + 1) = Terminated cmd (exit_code c) \<and>
          ?tr ! (4 * i + 2) = Wrote (replace_cr (replace_crlf out))" if i: "i < length grid" for i
  proof -
    from all_complete_nth [OF assms i] obtain r where
      b: "build_cmd (grid ! i) = Inr (cmd_of (grid ! i))" and
      o: "outcome env (cmd_of (grid ! i)) = Inr r"
      by blast
    from outcome_returnedD [OF o] obtain c out where
      s: "spawn env (cmd_of (grid ! i)) = Some c" and
      d: "decode env (out_bytes c) = Some out" and
      rc: "returncode r = exit_code c" and
      t: "stdout r = replace_cr (replace_crlf out)"
      by blast
    have "?tr ! (4 * i + 1) = Terminated (cmd_of (grid ! i)) (exit_code c)"
      using iterations_events(2) [OF i, of env] o rc by simp
    moreover have "?tr ! (4 * i + 2) = Wrote (replace_cr (replace_crlf out))"
      using iterations_events(3) [OF i, of env] o t by simp
    ultimately show ?thesis using b s d by blast
  qed
  with run show ?thesis by blast
qed

theorem captured_output_follows_termination_witness:
  "all_complete echo_stub args \<and>
   trace_of (run echo_stub) ! 1 =
     Terminated [''go'', ''run'', ''test1.go'',
        ''5'', ''512'', ''10000000000'', ''5'', ''10000'', ''100000'', ''76''] 0 \<and>
   trace_of (run echo_stub) ! 2 = Wrote (map of_char ''5 512 10000000000 5 10000 100000 76 '')"
proof -
  have c: "all_complete echo_stub args" by (rule echo_stub_complete)
  from captured_output_follows_termination [OF c] obtain tr where
    r: "sweep echo_stub args [] = Inr tr" and
    a: "\<forall>i<length args. \<exists>cmd c out.
              build_cmd (args ! i) = Inr cmd \<and> spawn echo_stub cmd = Some c \<and>
              decode echo_stub (out_bytes c) = Some out \<and>
              tr ! (4 * i + 1) = Terminated cmd (exit_code c) \<and>
              tr ! (4 * i + 2) = Wrote (replace_cr (replace_crlf out))"
    by blast
  have pos: "0 < length args" by (simp add: args_def)
  have p: "4 * 0 + 1 = (1::nat)" "4 * 0 + 2 = (2::nat)" by simp_all
  from a [rule_format, OF pos, unfolded p] obtain cmd c out where
    b: "build_cmd (args ! 0) = Inr cmd" and s: "spawn echo_stub cmd = Some c" and
    d: "decode echo_stub (out_bytes c) = Some out" and
    t: "tr ! 1 = Terminated cmd (exit_code c)" "tr ! 2 = Wrote (replace_cr (replace_crlf out))"
    by blast
  from b have cmd: "cmd = [''go'', ''run'', ''test1.go'',
        ''5'', ''512'', ''10000000000'', ''5'', ''10000'', ''100000'', ''76'']"
    using build_cmd_cmd_of first_command by fastforce
  from s have cc: "exit_code c = 0" "out_bytes c = ''5 512 10000000000 5 10000 100000 76 ''"
    by (auto simp: echo_stub_def cmd echo_text_def)
  from d have "out = map of_char ''5 512 10000000000 5 10000 100000 76 ''"
    by (simp add: cc echo_stub_def)
  then have "replace_cr (replace_crlf out) = map of_char ''5 512 10000000000 5 10000 100000 76 ''"
    by (simp add: replace_cr_def)
  then show ?thesis using c r t cmd cc by (simp add: run_def trace_of_def)
qed

text \<open>
  C3, as written, fails: when the program is absent no child is launched for any of the
  five tuples, and the script ends with exit status 1.
\<close>

theorem no_launch_when_the_program_is_absent:
  "launched (trace_of (run absent_program)) = [] \<and> length args = 5 \<and>
   exit_status (run absent_program) = 1"
  by (simp add: absent_program_run trace_of_def exit_status_def args_def)

text \<open>
  C3, amended. In every run the children started are those of the first \<open>n\<close> tuples of
  the grid, one for each and in order, for some \<open>n\<close> up to the length of the grid: never
  more than one launch for a tuple. When every call of \<^verbatim>\<open>subprocess.run\<close> returns (each
  child is started, terminates, and both its streams decode), the run starts as many
  children as the grid has tuples, and the \<open>i\<close>-th child started runs the command built
  from the \<open>i\<close>-th tuple. For the embedded grid that is five.
\<close>

theorem one_launch_per_tuple:
  "(\<exists>n\<le>length grid. launched (trace_of (sweep env grid [])) = map cmd_of (take n grid)) \<and>
   (all_complete env grid \<longrightarrow>
      length (launched (trace_of (sweep env grid []))) = length grid \<and>
      (\<forall>i<length grid.
         build_cmd (grid ! i) = Inr (launched (trace_of (sweep env grid [])) ! i)))"
proof -
  have "\<exists>n\<le>length grid. launched (trace_of (sweep env grid [])) = map cmd_of (take n grid)"
    using sweep_launches_prefix [of grid env "[]"] by simp
  moreover have "length (launched (trace_of (sweep env grid []))) = length grid \<and>
      (\<forall>i<length grid.
         build_cmd (grid ! i) = Inr (launched (trace_of (sweep env grid [])) ! i))"
    if c: "all_complete env grid"
  proof -
    have l: "launched (trace_of (sweep env grid [])) = map cmd_of grid"
      by (simp add: sweep_complete [OF c] trace_of_def launched_iterations)
    show ?thesis using all_complete_nth [OF c] by (simp add: l)
  qed
  ultimately show ?thesis by blast
qed

theorem one_launch_per_tuple_witness:
  "all_complete echo_stub args \<and>
   length (launched (trace_of (run echo_stub))) = 5 \<and>
   build_cmd (args ! 4) = Inr (launched (trace_of (run echo_stub)) ! 4)"
proof -
  have c: "all_complete echo_stub args" by (rule echo_stub_complete)
  have n: "length args = 5" by (simp add: args_def)
  from one_launch_per_tuple [of args echo_stub] show ?thesis using c by (simp add: run_def n)
qed

text \<open>
  C4. Children run strictly one after another, in the order of the grid. In the trace of a
  run whose calls of \<^verbatim>\<open>subprocess.run\<close> all return, never are two children alive at once;
  and at the moment the child of tuple \<open>i\<close> is started (position \<open>4 i\<close>), the children
  started so far are exactly those of the first \<open>i\<close> tuples, in order, and every one of
  them has terminated. That \<^verbatim>\<open>subprocess.run\<close> returns only once the child has terminated
  is the contract of that call, which \<open>subprocess_run\<close> takes over.
\<close>

theorem children_run_one_after_another:
  assumes "all_complete env grid"
  shows "\<exists>tr. sweep env grid [] = Inr tr \<and> sequential None tr \<and>
           (\<forall>i<length grid.
              sequential None (take (4 * i) tr) \<and>
              launched (take (4 * i) tr) = map cmd_of (take i grid) \<and>
              tr ! (4 * i) = Started (cmd_of (grid ! i)) \<and>
              (\<exists>rc. tr ! (4 * i + 1) = Terminated (cmd_of (grid ! i)) rc))"
proof -
  let ?tr = "concat (map (iteration env) grid)"
  have run: "sweep env grid [] = Inr ?tr"
    by (simp add: sweep_complete [OF assms])
  have "sequential None (take (4 * i) ?tr) \<and>
        launched (take (4 * i) ?tr) = map cmd_of (take i grid) \<and>
        ?tr ! (4 * i) = Started (cmd_of (grid ! i)) \<and>
        (\<exists>rc. ?tr ! (4 * i + 1) = Terminated (cmd_of (grid ! i)) rc)"
    if i: "i < length grid" for i
  proof -
    have t: "take (4 * i) ?tr = concat (map (iteration env) (take i grid))"
      using i by (simp add: take_iterations)
    have "?tr ! (4 * i) = Started (cmd_of (grid ! i))"
      by (rule iterations_events(1) [OF i])
    moreover have "\<exists>rc. ?tr ! (4 * i + 1) = Terminated (cmd_of (grid ! i)) rc"
      using iterations_events(2) [OF i, of env] by blast
    ultimately show ?thesis
      by (simp add: t sequential_iterations launched_iterations)
  qed
  with run sequential_iterations [of env grid] show ?thesis by blast
qed

theorem children_run_one_after_another_witness:
  "all_complete echo_stub args \<and>
   (\<exists>tr. run echo_stub = Inr tr \<and> sequential None tr \<and>
      sequential None (take 4 tr) \<and>
      launched (take 4 tr) = [cmd_of (args ! 0)] \<and>
      tr ! 4 = Started (cmd_of (args ! 1)))"
proof -
  have c: "all_complete echo_stub args" by (rule echo_stub_complete)
  from children_run_one_after_another [OF c] obtain tr where
    r: "sweep echo_stub args [] = Inr tr" and s: "sequential None tr" and
    a: "\<forall>i<length args.
              sequential None (take (4 * i) tr) \<and>
              launched (take (4 * i) tr) = map cmd_of (take i args) \<and>
              tr ! (4 * i) = Started (cmd_of (args ! i)) \<and>
              (\<exists>rc. tr ! (4 * i + 1) = Terminated (cmd_of (args ! i)) rc)"
    by blast
  have n: "length args = 5" by (simp add: args_def)
  have t: "take (Suc 0) args = [args ! 0]" by (simp add: args_def)
  from a [rule_format, of 1] n have "sequential None (take (4 * 1) tr) \<and>
              launched (take (4 * 1) tr) = map cmd_of (take 1 args) \<and>
              tr ! (4 * 1) = Started (cmd_of (args ! 1))"
    by simp
  then show ?thesis using c r s by (simp add: run_def t)
qed

text \<open>
  C5, as written, fails: a child that exits with status 1 after writing the byte \<open>0xFF\<close>
  stops the sweep. Its output does not decode, \<^verbatim>\<open>subprocess.run\<close> raises, only the first of
  the five tuples has been launched, and the script ends with exit status 1.
\<close>

theorem undecodable_output_stops_the_sweep:
  "map_option exit_code (spawn (fixed_program 1 [CHR 0xFF] []) (cmd_of (args ! 0))) = Some 1 \<and>
   exit_status (run (fixed_program 1 [CHR 0xFF] [])) = 1 \<and>
   launched (trace_of (run (fixed_program 1 [CHR 0xFF] []))) = [cmd_of (args ! 0)] \<and>
   length args = 5"
proof -
  have d: "utf8_decode [CHR 0xFF] = None \<or> utf8_decode [] = None" by simp
  have sp: "map_option exit_code (spawn (fixed_program 1 [CHR 0xFF] []) (cmd_of (args ! 0))) = Some 1"
    by (simp add: fixed_program_def)
  have n: "length args = 5" by (simp add: args_def)
  show ?thesis
    by (simp add: fixed_program_not_decoded [OF d] sp n trace_of_def exit_status_def)
qed

text \<open>
  C5, amended. The exit statuses of the children play no part: whatever they are, as long
  as each child was started, has terminated, and both its captured streams decode, the loop
  goes through the whole grid, starting the child of every tuple, and the script ends with
  exit status 0. The concrete run uses a program that fails every time, with exit status 1
  and nothing on its standard output.
\<close>

theorem exit_statuses_do_not_stop_the_sweep:
  assumes "all_complete env grid"
  shows "exit_status (sweep env grid []) = 0 \<and>
         launched (trace_of (sweep env grid [])) = map cmd_of grid \<and>
         length (launched (trace_of (sweep env grid []))) = length grid"
  by (simp add: sweep_complete [OF assms] exit_status_def trace_of_def launched_iterations)

theorem exit_statuses_do_not_stop_the_sweep_witness:
  "all_complete (fixed_program 1 [] ''exit status 1'') args \<and>
   list_all (\<lambda>arg_set.
      map_sum id returncode (outcome (fixed_program 1 [] ''exit status 1'') (cmd_of arg_set)) = Inr 1 \<and>
      map_sum id stdout (outcome (fixed_program 1 [] ''exit status 1'') (cmd_of arg_set)) = Inr [])
     args \<and>
   exit_status (run (fixed_program 1 [] ''exit status 1'')) = 0 \<and>
   length (launched (trace_of (run (fixed_program 1 [] ''exit status 1'')))) = 5"
proof -
  have d: "utf8_decode [] = Some []"
    "utf8_decode ''exit status 1'' = Some (map of_char ''exit status 1'')"
    by simp_all
  have c: "all_complete (fixed_program 1 [] ''exit status 1'') args"
    by (rule fixed_program_complete [OF d])
  have n: "length args = 5" by (simp add: args_def)
  have f: "list_all (\<lambda>arg_set.
      map_sum id returncode (outcome (fixed_program 1 [] ''exit status 1'') (cmd_of arg_set)) = Inr 1 \<and>
      map_sum id stdout (outcome (fixed_program 1 [] ''exit status 1'') (cmd_of arg_set)) = Inr [])
     args"
    by (simp add: list_all_iff fixed_program_outcome [OF d] replace_cr_def)
  from exit_statuses_do_not_stop_the_sweep [OF c] show ?thesis
    using c f by (simp add: run_def n)
qed

text \<open>
  C6. The embedded grid is five tuples of seven positive integers:
  \<open>(5, 512, 10^10, b, 10000, 100000, 76)\<close> for \<open>b = 5, 10, 15, 20, 40\<close>, in that order.
\<close>

theorem grid_is_fixed:
  "args = map (\<lambda>b. [5, 512, 10 ^ 10, b, 10000, 100000, 76]) [5, 10, 15, 20, 40] \<and>
   length args = 5 \<and>
   list_all (\<lambda>arg_set. length arg_set = 7 \<and> list_all (\<lambda>v. 0 < v) arg_set) args"
  by (simp add: args_def)

text \<open>
  C7. On an empty grid the loop starts no child, writes nothing, and the script ends
  normally, with exit status 0.
\<close>

theorem empty_grid_is_silent:
  "sweep env [] [] = Inr [] \<and>
   launched (trace_of (sweep env [] [])) = [] \<and>
   console (trace_of (sweep env [] [])) = [] \<and>
   exit_status (sweep env [] []) = 0"
  by (simp add: trace_of_def exit_status_def)

text \<open>
  C8, as written, fails: standard error is captured in text mode too. Of two programs that
  write the same \<^verbatim>\<open>ok\<close> to standard output and exit with status 0, the one whose standard
  error is \<^verbatim>\<open>some text\<close> gives five printed lines and exit status 0, and the one whose
  standard error is the byte \<open>0xFF\<close> gives an empty console and exit status 1.
\<close>

theorem undecodable_stderr_changes_the_run:
  "map_option out_bytes (spawn (fixed_program 0 ''ok'' ''some text'') (cmd_of (args ! 0))) =
     map_option out_bytes (spawn (fixed_program 0 ''ok'' [CHR 0xFF]) (cmd_of (args ! 0))) \<and>
   exit_status (run (fixed_program 0 ''ok'' ''some text'')) = 0 \<and>
   console (trace_of (run (fixed_program 0 ''ok'' ''some text''))) =
     [111, 107, 10, 111, 107, 10, 111, 107, 10, 111, 107, 10, 111, 107, 10] \<and>
   exit_status (run (fixed_program 0 ''ok'' [CHR 0xFF])) = 1 \<and>
   console (trace_of (run (fixed_program 0 ''ok'' [CHR 0xFF]))) = []"
proof -
  have d: "utf8_decode ''ok'' = Some [111, 107]"
    "utf8_decode ''some text'' = Some (map of_char ''some text'')"
    by simp_all
  have u: "utf8_decode ''ok'' = None \<or> utf8_decode [CHR 0xFF] = None" by simp
  have k: "concat (map (\<lambda>t. [111, 107, 10 :: nat]) args) =
      [111, 107, 10, 111, 107, 10, 111, 107, 10, 111, 107, 10, 111, 107, 10]"
    by (simp add: args_def)
  have "console (trace_of (run (fixed_program 0 ''ok'' ''some text''))) =
      concat (map (\<lambda>t. [111, 107, 10 :: nat]) args)"
    by (simp add: fixed_program_run [OF d] trace_of_def console_iterations
        fixed_program_outcome [OF d] replace_cr_def)
  moreover have "map_option out_bytes
        (spawn (fixed_program 0 ''ok'' ''some text'') (cmd_of (args ! 0))) =
      map_option out_bytes (spawn (fixed_program 0 ''ok'' [CHR 0xFF]) (cmd_of (args ! 0)))"
    by (simp add: fixed_program_def)
  ultimately show ?thesis
    by (simp add: k fixed_program_run [OF d] fixed_program_not_decoded [OF u]
        trace_of_def exit_status_def)
qed

text \<open>
  C8, amended. Two runs over the same grid, against environments in which every call of
  \<^verbatim>\<open>subprocess.run\<close> either raises the same exception or returns the same standard-output
  text, write the same text to the console, start the same commands and end with the same
  exit status, however the exit statuses of the children and the text decoded from their
  standard error differ. Standard error matters in one way only: it has to decode.
\<close>

theorem exit_status_and_decoded_stderr_do_not_matter:
  assumes "\<forall>cmd. map_sum id stdout (outcome env1 cmd) = map_sum id stdout (outcome env2 cmd)"
  shows "console (trace_of (sweep env1 grid [])) = console (trace_of (sweep env2 grid [])) \<and>
         launched (trace_of (sweep env1 grid [])) = launched (trace_of (sweep env2 grid [])) \<and>
         exit_status (sweep env1 grid []) = exit_status (sweep env2 grid [])"
  using assms by (intro sweep_agree) simp_all

theorem exit_status_and_decoded_stderr_do_not_matter_witness:
  "(\<forall>cmd. map_sum id stdout (outcome (fixed_program 0 ''ok'' []) cmd) =
          map_sum id stdout (outcome (fixed_program 2 ''ok'' ''panic'') cmd)) \<and>
   (\<forall>cmd. map_sum id returncode (outcome (fixed_program 0 ''ok'' []) cmd) \<noteq>
          map_sum id returncode (outcome (fixed_program 2 ''ok'' ''panic'') cmd)) \<and>
   (\<forall>cmd. map_sum id stderr (outcome (fixed_program 0 ''ok'' []) cmd) \<noteq>
          map_sum id stderr (outcome (fixed_program 2 ''ok'' ''panic'') cmd)) \<and>
   console (trace_of (run (fixed_program 0 ''ok'' []))) =
     console (trace_of (run (fixed_program 2 ''ok'' ''panic''))) \<and>
   launched (trace_of (run (fixed_program 0 ''ok'' []))) =
     launched (trace_of (run (fixed_program 2 ''ok'' ''panic''))) \<and>
   exit_status (run (fixed_program 0 ''ok'' [])) =
     exit_status (run (fixed_program 2 ''ok'' ''panic''))"
proof -
  have d1: "utf8_decode ''ok'' = Some [111, 107]" "utf8_decode [] = Some []" by simp_all
  have d2: "utf8_decode ''ok'' = Some [111, 107]"
    "utf8_decode ''panic'' = Some (map of_char ''panic'')"
    by simp_all
  have h: "\<forall>cmd. map_sum id stdout (outcome (fixed_program 0 ''ok'' []) cmd) =
          map_sum id stdout (outcome (fixed_program 2 ''ok'' ''panic'') cmd)"
    by (simp add: fixed_program_outcome [OF d1] fixed_program_outcome [OF d2])
  have d: "\<forall>cmd. map_sum id returncode (outcome (fixed_program 0 ''ok'' []) cmd) \<noteq>
          map_sum id returncode (outcome (fixed_program 2 ''ok'' ''panic'') cmd)"
    "\<forall>cmd. map_sum id stderr (outcome (fixed_program 0 ''ok'' []) cmd) \<noteq>
          map_sum id stderr (outcome (fixed_program 2 ''ok'' ''panic'') cmd)"
    by (simp_all add: fixed_program_outcome [OF d1] fixed_program_outcome [OF d2] replace_cr_def)
  from exit_status_and_decoded_stderr_do_not_matter [OF h, of args] show ?thesis
    unfolding run_def using h d by blast
qed

text \<open>
  C9. Each \<^verbatim>\<open>print\<close> adds one line end: the console holds, for each tuple in turn, the
  captured standard output of its child followed by one \<^verbatim>\<open>'\n'\<close>. For a grid that is not
  empty this differs from the plain concatenation of the children's outputs.
\<close>

theorem console_is_outputs_with_line_ends:
  assumes "all_complete env grid"
  shows "console (trace_of (sweep env grid [])) =
           concat (map (\<lambda>arg_set. stdout (projr (outcome env (cmd_of arg_set))) @ [10]) grid) \<and>
         (grid \<noteq> [] \<longrightarrow>
            console (trace_of (sweep env grid [])) \<noteq>
              concat (map (\<lambda>arg_set. stdout (projr (outcome env (cmd_of arg_set)))) grid))"
proof -
  let ?outs = "\<lambda>arg_set. stdout (projr (outcome env (cmd_of arg_set)))"
  have c: "console (trace_of (sweep env grid [])) = concat (map (\<lambda>t. ?outs t @ [10]) grid)"
    by (simp add: sweep_complete [OF assms] trace_of_def console_iterations)
  have "length (console (trace_of (sweep env grid []))) = length (concat (map ?outs grid)) + length grid"
    unfolding c by (rule length_with_line_ends)
  then have "grid \<noteq> [] \<longrightarrow> console (trace_of (sweep env grid [])) \<noteq> concat (map ?outs grid)"
    by auto
  with c show ?thesis by blast
qed

theorem console_is_outputs_with_line_ends_witness:
  "all_complete (fixed_program 1 [] ''exit status 1'') args \<and> args \<noteq> [] \<and>
   console (trace_of (run (fixed_program 1 [] ''exit status 1''))) = [10, 10, 10, 10, 10] \<and>
   concat (map (\<lambda>arg_set.
      stdout (projr (outcome (fixed_program 1 [] ''exit status 1'') (cmd_of arg_set)))) args) = []"
proof -
  have d: "utf8_decode [] = Some []"
    "utf8_decode ''exit status 1'' = Some (map of_char ''exit status 1'')"
    by simp_all
  have c: "all_complete (fixed_program 1 [] ''exit status 1'') args"
    by (rule fixed_program_complete [OF d])
  have a: "concat (map (\<lambda>arg_set. [10::nat]) args) = [10, 10, 10, 10, 10]" "args \<noteq> []"
    by (simp_all add: args_def)
  from console_is_outputs_with_line_ends [OF c] show ?thesis
    using c a by (simp add: run_def fixed_program_outcome [OF d] replace_cr_def)
qed

text \<open>
  C10. Let the external program be a function \<open>f\<close> from the command to the text on its
  standard output. Any two runs over the same grid against environments that behave as
  \<open>f\<close> start the same commands in the same order and write the same text to the console;
  when every tuple has its seven fields, both are given by the grid and \<open>f\<close> alone.
\<close>

theorem run_is_determined_by_grid_and_program:
  assumes "\<forall>cmd. map_sum id stdout (outcome env1 cmd) = Inr (f cmd)"
    and "\<forall>cmd. map_sum id stdout (outcome env2 cmd) = Inr (f cmd)"
  shows "launched (trace_of (sweep env1 grid [])) = launched (trace_of (sweep env2 grid [])) \<and>
         console (trace_of (sweep env1 grid [])) = console (trace_of (sweep env2 grid [])) \<and>
         (list_all (\<lambda>arg_set. 7 \<le> length arg_set) grid \<longrightarrow>
            launched (trace_of (sweep env1 grid [])) = map cmd_of grid \<and>
            console (trace_of (sweep env1 grid [])) =
              concat (map (\<lambda>arg_set. f (cmd_of arg_set) @ [10]) grid))"
proof -
  have same: "\<And>cmd. map_sum id stdout (outcome env1 cmd) = map_sum id stdout (outcome env2 cmd)"
    by (simp only: assms [rule_format])
  have "console (trace_of (sweep env1 grid [])) = console (trace_of (sweep env2 grid [])) \<and>
        launched (trace_of (sweep env1 grid [])) = launched (trace_of (sweep env2 grid [])) \<and>
        exit_status (sweep env1 grid []) = exit_status (sweep env2 grid [])"
    by (rule sweep_agree) (simp_all add: same)
  then have agree:
    "launched (trace_of (sweep env1 grid [])) = launched (trace_of (sweep env2 grid []))"
    "console (trace_of (sweep env1 grid [])) = console (trace_of (sweep env2 grid []))"
    by simp_all
  have closed: "launched (trace_of (sweep env1 grid [])) = map cmd_of grid \<and>
      console (trace_of (sweep env1 grid [])) =
        concat (map (\<lambda>arg_set. f (cmd_of arg_set) @ [10]) grid)"
    if wf: "list_all (\<lambda>arg_set. 7 \<le> length arg_set) grid"
  proof -
    have ret: "\<exists>r. outcome env1 cmd = Inr r \<and> stdout r = f cmd" for cmd
      using assms(1) [rule_format, of cmd] by (cases "outcome env1 cmd") simp_all
    then have some: "\<And>cmd. \<exists>r. outcome env1 cmd = Inr r" by blast
    have out: "\<And>cmd. stdout (projr (outcome env1 cmd)) = f cmd"
      using ret by (metis sum.sel(2))
    have c: "all_complete env1 grid"
      using wf some by (intro all_completeI) (simp_all add: list_all_iff)
    show ?thesis
      by (simp add: sweep_complete [OF c] trace_of_def launched_iterations console_iterations out)
  qed
  with agree show ?thesis by blast
qed

theorem run_is_determined_by_grid_and_program_witness:
  "(\<forall>cmd. map_sum id stdout (outcome (fixed_program 0 ''ok'' []) cmd) = Inr [111, 107]) \<and>
   (\<forall>cmd. map_sum id stdout (outcome (fixed_program 2 ''ok'' ''panic'') cmd) = Inr [111, 107]) \<and>
   list_all (\<lambda>arg_set. 7 \<le> length arg_set) args \<and>
   launched (trace_of (run (fixed_program 0 ''ok'' []))) =
     launched (trace_of (run (fixed_program 2 ''ok'' ''panic''))) \<and>
   console (trace_of (run (fixed_program 0 ''ok'' []))) =
     console (trace_of (run (fixed_program 2 ''ok'' ''panic''))) \<and>
   launched (trace_of (run (fixed_program 0 ''ok'' []))) = map cmd_of args \<and>
   console (trace_of (run (fixed_program 0 ''ok'' []))) =
     concat (map (\<lambda>arg_set. [111, 107] @ [10]) args)"
proof -
  have d1: "utf8_decode ''ok'' = Some [111, 107]" "utf8_decode [] = Some []" by simp_all
  have d2: "utf8_decode ''ok'' = Some [111, 107]"
    "utf8_decode ''panic'' = Some (map of_char ''panic'')"
    by simp_all
  have h1: "\<forall>cmd. map_sum id stdout (outcome (fixed_program 0 ''ok'' []) cmd) = Inr [111, 107]"
    by (simp add: fixed_program_outcome [OF d1] replace_cr_def)
  have h2: "\<forall>cmd. map_sum id stdout (outcome (fixed_program 2 ''ok'' ''panic'') cmd) = Inr [111, 107]"
    by (simp add: fixed_program_outcome [OF d2] replace_cr_def)
  have wf: "list_all (\<lambda>arg_set. 7 \<le> length arg_set) args"
    by (simp add: args_def)
  from run_is_determined_by_grid_and_program [OF h1 h2, of args] show ?thesis
    unfolding run_def using h1 h2 wf by blast
qed

end
